theory Spec2Isabelle
  imports Complex_Main
begin

section \<open>The embedding client of \<^verbatim>\<open>src/embedding.py\<close>\<close>

subsection \<open>JSON values as Python sees them\<close>

text \<open>
  \<^verbatim>\<open>response.json()\<close> gives a Python value built from \<^verbatim>\<open>None\<close>, \<^verbatim>\<open>bool\<close>, \<^verbatim>\<open>int\<close>,
  \<^verbatim>\<open>float\<close>, \<^verbatim>\<open>str\<close>, \<^verbatim>\<open>list\<close> and \<^verbatim>\<open>dict\<close>. A float is represented by the real number
  it denotes; the client never computes with it. The characters of a \<^verbatim>\<open>str\<close> are the
  elements of a \<open>string\<close>. A dict is an association list in insertion order: the
  binding of a key is its first entry, and the keys of the dict are the distinct first
  components.
\<close>

datatype jvalue =
    JNull
  | JBool bool
  | JInt int
  | JFloat real
  | JStr string
  | JArr "jvalue list"
  | JObj "(string \<times> jvalue) list"

text \<open>
  The exceptions the two operations can end with. \<open>ValueError\<close> carries its message.
  \<open>AttributeError\<close>, \<open>TypeError\<close>, \<open>KeyError\<close> and \<open>IndexError\<close> are what Python raises
  by itself when the response has an unexpected shape. \<open>HTTPError\<close> is what the HTTP
  library's \<^verbatim>\<open>raise_for_status()\<close> raises, with the status code of the response.
  \<open>RequestException\<close> stands for whatever else the library raises (connection failure,
  timeout, a body that is not JSON), with the library's own description.
\<close>

datatype exn =
    RequestException string
  | HTTPError nat
  | ValueError string
  | AttributeError
  | TypeError
  | KeyError
  | IndexError

text \<open>Python truthiness, as tested by \<^verbatim>\<open>if not items\<close>.\<close>

fun truthy :: "jvalue \<Rightarrow> bool" where
  "truthy JNull = False"
| "truthy (JBool b) = b"
| "truthy (JInt i) = (i \<noteq> 0)"
| "truthy (JFloat r) = (r \<noteq> 0)"
| "truthy (JStr s) = (s \<noteq> [])"
| "truthy (JArr xs) = (xs \<noteq> [])"
| "truthy (JObj kvs) = (kvs \<noteq> [])"

text \<open>
  \<^verbatim>\<open>x.get(key)\<close>: on a dict the value bound to the key, \<^verbatim>\<open>None\<close> when the key is
  absent; every other value has no attribute \<^verbatim>\<open>get\<close>.
\<close>

fun py_get :: "jvalue \<Rightarrow> string \<Rightarrow> exn + jvalue" where
  "py_get (JObj kvs) k = Inr (case map_of kvs k of None \<Rightarrow> JNull | Some v \<Rightarrow> v)"
| "py_get _ k = Inl AttributeError"

text \<open>\<^verbatim>\<open>x[0]\<close>. The keys of a parsed JSON object are strings, so \<^verbatim>\<open>0\<close> is never one.\<close>

fun py_getitem0 :: "jvalue \<Rightarrow> exn + jvalue" where
  "py_getitem0 (JArr []) = Inl IndexError"
| "py_getitem0 (JArr (x # xs)) = Inr x"
| "py_getitem0 (JStr []) = Inl IndexError"
| "py_getitem0 (JStr (c # cs)) = Inr (JStr [c])"
| "py_getitem0 (JObj kvs) = Inl KeyError"
| "py_getitem0 _ = Inl TypeError"

text \<open>\<^verbatim>\<open>len(x)\<close>.\<close>

fun py_len :: "jvalue \<Rightarrow> exn + nat" where
  "py_len (JArr xs) = Inr (length xs)"
| "py_len (JStr s) = Inr (length s)"
| "py_len (JObj kvs) = Inr (length (remdups (map fst kvs)))"
| "py_len _ = Inl TypeError"

text \<open>The elements \<^verbatim>\<open>enumerate(x)\<close> runs through: a dict yields its keys, a string its characters.\<close>

fun py_iter :: "jvalue \<Rightarrow> exn + jvalue list" where
  "py_iter (JArr xs) = Inr xs"
| "py_iter (JStr s) = Inr (map (\<lambda>c. JStr [c]) s)"
| "py_iter (JObj kvs) = Inr (map JStr (remdups (map fst kvs)))"
| "py_iter _ = Inl TypeError"

text \<open>\<^verbatim>\<open>str(n)\<close> for a length or an index, as an f-string renders it.\<close>

definition digit :: "nat \<Rightarrow> char" where
  "digit d = ''0123456789'' ! d"

fun str_nat :: "nat \<Rightarrow> string" where
  "str_nat n = (if n < 10 then [digit n] else str_nat (n div 10) @ [digit (n mod 10)])"

declare str_nat.simps [simp del]

text \<open>\<^verbatim>\<open>s.rstrip(chars)\<close>: drop every trailing character that is one of \<open>chars\<close>.\<close>

definition rstrip :: "string \<Rightarrow> string \<Rightarrow> string" where
  "rstrip s chars = rev (dropWhile (\<lambda>c. c \<in> set chars) (rev s))"

subsection \<open>The HTTP library\<close>

text \<open>
  What \<^verbatim>\<open>requests.post(url, json=..., headers=..., timeout=...)\<close> is called with.
\<close>

record request =
  req_method :: string
  req_url :: string
  req_json :: jvalue
  req_headers :: "(string \<times> string) list"
  req_timeout :: nat

text \<open>
  The response object, by what its two methods do when the client calls them:
  \<^verbatim>\<open>raise_for_status()\<close> raises or returns, \<^verbatim>\<open>json()\<close> raises or gives the parsed body.
\<close>

record response =
  raise_for_status :: "exn option"
  json :: "exn + jvalue"

text \<open>
  The response the HTTP library builds for a status code and a body. The library is
  not part of the repository; its \<^verbatim>\<open>Response.raise_for_status()\<close> raises \<^verbatim>\<open>HTTPError\<close>
  for a client error (400 to 499) or a server error (500 to 599) and returns for every
  other status code.
\<close>

definition http_response :: "nat \<Rightarrow> exn + jvalue \<Rightarrow> response" where
  "http_response status_code body =
     \<lparr>raise_for_status =
        (if 400 \<le> status_code \<and> status_code < 600 then Some (HTTPError status_code) else None),
      json = body\<rparr>"

text \<open>
  The remote side: for each request, either the exception \<^verbatim>\<open>requests.post\<close> raises or
  the response it returns. The list of requests sent so far is the state that every
  operation threads through.
\<close>

type_synonym transport = "request \<Rightarrow> exn + response"

definition requests_post ::
  "transport \<Rightarrow> string \<Rightarrow> jvalue \<Rightarrow> (string \<times> string) list \<Rightarrow> nat \<Rightarrow> request list
    \<Rightarrow> (exn + response) \<times> request list" where
  "requests_post net u payload hdrs t sent =
     (let r = \<lparr>req_method = ''POST'', req_url = u, req_json = payload,
                req_headers = hdrs, req_timeout = t\<rparr>
      in (net r, sent @ [r]))"

subsection \<open>The client\<close>

record Embedding =
  api_key :: string
  base_url :: string
  model :: string

definition Embedding_init :: "string \<Rightarrow> string \<Rightarrow> string \<Rightarrow> Embedding" where
  "Embedding_init k u m = \<lparr>api_key = k, base_url = rstrip u ''/'', model = m\<rparr>"

definition quoted :: "string \<Rightarrow> string" where
  "quoted s = CHR 0x27 # s @ [CHR 0x27]"

definition missing_embeddings :: exn where
  "missing_embeddings = ValueError (''Invalid response payload: missing '' @ quoted ''embeddings'')"

definition missing_embedding :: exn where
  "missing_embedding = ValueError (''Invalid response payload: missing '' @ quoted ''embedding'')"

definition length_mismatch :: "nat \<Rightarrow> nat \<Rightarrow> exn" where
  "length_mismatch expected got =
     ValueError (''Response length mismatch: expected '' @ str_nat expected @ '', got '' @ str_nat got)"

definition missing_item :: "nat \<Rightarrow> exn" where
  "missing_item i = ValueError (''Missing '' @ quoted ''embedding'' @ '' in response item '' @ str_nat i)"

definition payload_of :: "Embedding \<Rightarrow> string list \<Rightarrow> jvalue" where
  "payload_of self texts =
     JObj [(''inputs'', JArr (map JStr texts)),
           (''input_type'', JStr ''document''),
           (''embedding_model'', JStr (model self))]"

definition headers_of :: "Embedding \<Rightarrow> (string \<times> string) list" where
  "headers_of self = [(''Authorization'', ''Bearer '' @ api_key self)]"

text \<open>
  \<^verbatim>\<open>get_embedding\<close>, lines 18 to 40. The result pairs what the call returns or raises
  with the requests sent.
\<close>

definition get_embedding ::
  "Embedding \<Rightarrow> transport \<Rightarrow> string \<Rightarrow> request list \<Rightarrow> (exn + jvalue) \<times> request list" where
  "get_embedding self net text sent =
     (case requests_post net (base_url self @ ''/embeddings'') (payload_of self [text])
             (headers_of self) 30 sent of
        (Inl e, sent') \<Rightarrow> (Inl e, sent')
      | (Inr resp, sent') \<Rightarrow>
          (case raise_for_status resp of
             Some e \<Rightarrow> (Inl e, sent')
           | None \<Rightarrow>
               (case json resp of
                  Inl e \<Rightarrow> (Inl e, sent')
                | Inr data \<Rightarrow>
                    (case py_get data ''embeddings'' of
                       Inl e \<Rightarrow> (Inl e, sent')
                     | Inr items \<Rightarrow>
                         if \<not> truthy items then (Inl missing_embeddings, sent')
                         else
                           (case py_getitem0 items of
                              Inl e \<Rightarrow> (Inl e, sent')
                            | Inr item \<Rightarrow>
                                (case py_get item ''embedding'' of
                                   Inl e \<Rightarrow> (Inl e, sent')
                                 | Inr embedding_vector \<Rightarrow>
                                     if embedding_vector = JNull
                                     then (Inl missing_embedding, sent')
                                     else (Inr embedding_vector, sent')))))))"

text \<open>
  The loop of lines 82 to 87: \<open>i\<close> is the index \<^verbatim>\<open>enumerate\<close> has reached and
  \<open>embeddings\<close> the list built so far.
\<close>

fun extract_embeddings :: "nat \<Rightarrow> jvalue list \<Rightarrow> jvalue list \<Rightarrow> exn + jvalue list" where
  "extract_embeddings i [] embeddings = Inr embeddings"
| "extract_embeddings i (item # rest) embeddings =
     (case py_get item ''embedding'' of
        Inl e \<Rightarrow> Inl e
      | Inr embedding_vector \<Rightarrow>
          if embedding_vector = JNull then Inl (missing_item i)
          else extract_embeddings (Suc i) rest (embeddings @ [embedding_vector]))"

text \<open>\<^verbatim>\<open>get_embeddings_batch\<close>, lines 42 to 89.\<close>

definition get_embeddings_batch ::
  "Embedding \<Rightarrow> transport \<Rightarrow> string list \<Rightarrow> request list \<Rightarrow> (exn + jvalue list) \<times> request list" where
  "get_embeddings_batch self net texts sent =
     (if texts = [] then (Inr [], sent)
      else
        (case requests_post net (base_url self @ ''/embeddings'') (payload_of self texts)
                (headers_of self) 60 sent of
           (Inl e, sent') \<Rightarrow> (Inl e, sent')
         | (Inr resp, sent') \<Rightarrow>
             (case raise_for_status resp of
                Some e \<Rightarrow> (Inl e, sent')
              | None \<Rightarrow>
                  (case json resp of
                     Inl e \<Rightarrow> (Inl e, sent')
                   | Inr data \<Rightarrow>
                       (case py_get data ''embeddings'' of
                          Inl e \<Rightarrow> (Inl e, sent')
                        | Inr items \<Rightarrow>
                            if \<not> truthy items then (Inl missing_embeddings, sent')
                            else
                              (case py_len items of
                                 Inl e \<Rightarrow> (Inl e, sent')
                               | Inr n \<Rightarrow>
                                   if n \<noteq> length texts
                                   then (Inl (length_mismatch (length texts) n), sent')
                                   else
                                     (case py_iter items of
                                        Inl e \<Rightarrow> (Inl e, sent')
                                      | Inr its \<Rightarrow> (extract_embeddings 0 its [], sent'))))))))"

subsection \<open>Vocabulary of the specification\<close>

text \<open>A transport that answers every request the same way, as a mocked transport does.\<close>

definition mock_transport :: "exn + response \<Rightarrow> transport" where
  "mock_transport out = (\<lambda>r. out)"

text \<open>A response with a success status whose body parses to \<open>data\<close>.\<close>

definition ok_response :: "jvalue \<Rightarrow> response" where
  "ok_response data = \<lparr>raise_for_status = None, json = Inr data\<rparr>"


text \<open>The JSON object \<open>item\<close> has the key \<open>k\<close>, bound to \<open>v\<close>.\<close>

fun has_field :: "jvalue \<Rightarrow> string \<Rightarrow> jvalue \<Rightarrow> bool" where
  "has_field (JObj kvs) k v = (map_of kvs k = Some v)"
| "has_field _ k v = False"

text \<open>The JSON object \<open>item\<close> has no key \<open>k\<close>.\<close>

fun lacks_field :: "jvalue \<Rightarrow> string \<Rightarrow> bool" where
  "lacks_field (JObj kvs) k = (map_of kvs k = None)"
| "lacks_field _ k = False"

text \<open>The request each operation sends.\<close>

definition embeddings_request :: "Embedding \<Rightarrow> string list \<Rightarrow> nat \<Rightarrow> request" where
  "embeddings_request self texts t =
     \<lparr>req_method = ''POST'', req_url = base_url self @ ''/embeddings'',
      req_json = payload_of self texts, req_headers = headers_of self, req_timeout = t\<rparr>"

text \<open>The requests a call added to those sent before it.\<close>

definition new_requests :: "request list \<Rightarrow> request list \<Rightarrow> request list" where
  "new_requests sent sent' = drop (length sent) sent'"

text \<open>
  A call that started with \<open>sent\<close> and ended with \<open>sent'\<close> sent a request that the
  transport answered with \<open>out\<close>.
\<close>

definition answered :: "transport \<Rightarrow> request list \<Rightarrow> request list \<Rightarrow> exn + response \<Rightarrow> bool" where
  "answered net sent sent' out = list_ex (\<lambda>r. net r = out) (new_requests sent sent')"

text \<open>The item is a JSON object whose key \<^verbatim>\<open>embedding\<close> is bound to \<open>v\<close>, and \<open>v\<close> is not null.\<close>

definition carries :: "jvalue \<Rightarrow> jvalue \<Rightarrow> bool" where
  "carries item v = (has_field item ''embedding'' v \<and> v \<noteq> JNull)"

text \<open>The item is a JSON object whose key \<^verbatim>\<open>embedding\<close> is absent or bound to null.\<close>

definition no_embedding :: "jvalue \<Rightarrow> bool" where
  "no_embedding item = (lacks_field item ''embedding'' \<or> has_field item ''embedding'' JNull)"

subsection \<open>Sample inputs\<close>

text \<open>A client built from a base URL that ends in two slashes.\<close>

definition sample_client :: Embedding where
  "sample_client = Embedding_init ''secret'' ''https://api.example.com/v1//'' ''embed-small''"

text \<open>The transport that answers every request with a success status and the body \<open>data\<close>.\<close>

definition replies :: "jvalue \<Rightarrow> transport" where
  "replies data = mock_transport (Inr (ok_response data))"

text \<open>The transport that answers every request with the given status code and body.\<close>

definition status_reply :: "nat \<Rightarrow> exn + jvalue \<Rightarrow> transport" where
  "status_reply status_code body = mock_transport (Inr (http_response status_code body))"

section \<open>Auxiliary facts\<close>

subsection \<open>Rendering of numbers\<close>

lemma digit_inj: "a < 10 \<Longrightarrow> b < 10 \<Longrightarrow> digit a = digit b \<Longrightarrow> a = b"
proof -
  assume a: "a < 10" and b: "b < 10" and e: "digit a = digit b"
  have d: "distinct ''0123456789''" by simp
  have l: "length ''0123456789'' = 10" by simp
  from d l a b e show ?thesis
    unfolding digit_def by (metis nth_eq_iff_index_eq)
qed

lemma str_nat_nonempty: "str_nat n \<noteq> []"
  by (subst str_nat.simps) simp

lemma str_nat_inj: "str_nat m = str_nat n \<Longrightarrow> m = n"
proof (induction m arbitrary: n rule: str_nat.induct)
  case (1 m)
  show ?case
  proof (cases "m < 10")
    case True
    show ?thesis
    proof (cases "n < 10")
      case nsmall: True
      from "1.prems" True nsmall have "digit m = digit n"
        by (simp add: str_nat.simps)
      with True nsmall show ?thesis by (blast intro: digit_inj)
    next
      case False
      from "1.prems" True False have "[digit m] = str_nat (n div 10) @ [digit (n mod 10)]"
        by (simp add: str_nat.simps[of m] str_nat.simps[of n])
      then have "str_nat (n div 10) = []" by simp
      then show ?thesis by (simp add: str_nat_nonempty)
    qed
  next
    case mbig: False
    show ?thesis
    proof (cases "n < 10")
      case True
      from "1.prems" True mbig have "str_nat (m div 10) @ [digit (m mod 10)] = [digit n]"
        by (simp add: str_nat.simps[of m] str_nat.simps[of n])
      then have "str_nat (m div 10) = []" by simp
      then show ?thesis by (simp add: str_nat_nonempty)
    next
      case False
      from "1.prems" False mbig
      have e: "str_nat (m div 10) @ [digit (m mod 10)] = str_nat (n div 10) @ [digit (n mod 10)]"
        by (simp add: str_nat.simps[of m] str_nat.simps[of n])
      then have "str_nat (m div 10) = str_nat (n div 10)" by simp
      with "1.IH" mbig have q: "m div 10 = n div 10" by blast
      from e have "digit (m mod 10) = digit (n mod 10)" by simp
      then have r: "m mod 10 = n mod 10" by (intro digit_inj) simp_all
      from q r show ?thesis by (metis div_mult_mod_eq)
    qed
  qed
qed


subsection \<open>Fields and lookups\<close>

lemma has_field_get: "has_field d k v \<Longrightarrow> py_get d k = Inr v"
  by (cases d) simp_all

lemma lacks_field_get: "lacks_field d k \<Longrightarrow> py_get d k = Inr JNull"
  by (cases d) simp_all

lemma no_embedding_get: "no_embedding item \<Longrightarrow> py_get item ''embedding'' = Inr JNull"
  unfolding no_embedding_def by (auto dest: has_field_get lacks_field_get)

lemma carries_get: "carries item v \<Longrightarrow> py_get item ''embedding'' = Inr v"
  unfolding carries_def by (simp add: has_field_get)

lemma py_get_Inr_cases:
  "py_get item ''embedding'' = Inr v \<Longrightarrow> (v \<noteq> JNull \<and> carries item v) \<or> (v = JNull \<and> no_embedding item)"
  by (cases item) (auto simp: carries_def no_embedding_def split: option.splits)

subsection \<open>The two operations, path by path\<close>

lemma snd_get_embedding:
  "snd (get_embedding self net text sent) = sent @ [embeddings_request self [text] 30]"
  by (simp add: get_embedding_def requests_post_def embeddings_request_def Let_def
      split: sum.splits option.splits)

lemma snd_get_embeddings_batch:
  "snd (get_embeddings_batch self net texts sent) =
     (if texts = [] then sent else sent @ [embeddings_request self texts 60])"
  by (simp add: get_embeddings_batch_def requests_post_def embeddings_request_def Let_def
      split: sum.splits option.splits)

lemma fst_get_embedding_ok:
  assumes "net (embeddings_request self [text] 30) = Inr (ok_response data)"
  shows "fst (get_embedding self net text sent) =
    (case py_get data ''embeddings'' of
       Inl e \<Rightarrow> Inl e
     | Inr items \<Rightarrow>
         if \<not> truthy items then Inl missing_embeddings
         else (case py_getitem0 items of
                 Inl e \<Rightarrow> Inl e
               | Inr item \<Rightarrow>
                   (case py_get item ''embedding'' of
                      Inl e \<Rightarrow> Inl e
                    | Inr v \<Rightarrow> if v = JNull then Inl missing_embedding else Inr v)))"
  using assms
  by (simp add: get_embedding_def requests_post_def embeddings_request_def Let_def ok_response_def
      split: sum.splits)

lemma fst_get_embeddings_batch_ok:
  assumes "texts \<noteq> []" and "net (embeddings_request self texts 60) = Inr (ok_response data)"
  shows "fst (get_embeddings_batch self net texts sent) =
    (case py_get data ''embeddings'' of
       Inl e \<Rightarrow> Inl e
     | Inr items \<Rightarrow>
         if \<not> truthy items then Inl missing_embeddings
         else (case py_len items of
                 Inl e \<Rightarrow> Inl e
               | Inr n \<Rightarrow>
                   if n \<noteq> length texts then Inl (length_mismatch (length texts) n)
                   else (case py_iter items of
                           Inl e \<Rightarrow> Inl e
                         | Inr its \<Rightarrow> extract_embeddings 0 its [])))"
  using assms
  by (simp add: get_embeddings_batch_def requests_post_def embeddings_request_def Let_def
      ok_response_def split: sum.splits)



lemma new_requests_append [simp]: "new_requests sent (sent @ rs) = rs"
  by (simp add: new_requests_def)

lemma new_requests_same [simp]: "new_requests sent sent = []"
  by (simp add: new_requests_def)

lemma answered_one [simp]: "answered net sent (sent @ [r]) out \<longleftrightarrow> net r = out"
  by (simp add: answered_def)

lemma answered_none [simp]: "\<not> answered net sent sent out"
  by (simp add: answered_def)

subsection \<open>The extraction loop\<close>

lemma extract_all:
  "list_all2 carries items vs \<Longrightarrow> extract_embeddings i items acc = Inr (acc @ vs)"
proof (induction items vs arbitrary: i acc rule: list_all2_induct)
  case Nil
  show ?case by simp
next
  case (Cons item items v vs)
  from Cons.hyps(1) have g: "py_get item ''embedding'' = Inr v" and nn: "v \<noteq> JNull"
    by (simp_all add: carries_get) (simp add: carries_def)
  show ?case by (simp add: g nn Cons.IH)
qed

lemma extract_Inr_D:
  "extract_embeddings i items acc = Inr out \<Longrightarrow> \<exists>vs. out = acc @ vs \<and> list_all2 carries items vs"
proof (induction items arbitrary: i acc)
  case Nil
  then show ?case by simp
next
  case (Cons item items)
  from Cons.prems obtain v where g: "py_get item ''embedding'' = Inr v"
    by (cases "py_get item ''embedding''") simp_all
  with Cons.prems have nn: "v \<noteq> JNull"
    and rest: "extract_embeddings (Suc i) items (acc @ [v]) = Inr out"
    by (simp_all split: if_splits)
  from Cons.IH[OF rest] obtain vs where o: "out = (acc @ [v]) @ vs" and a: "list_all2 carries items vs"
    by blast
  from g nn have c: "carries item v" using py_get_Inr_cases by blast
  from o a c have "out = acc @ (v # vs) \<and> list_all2 carries (item # items) (v # vs)" by simp
  then show ?case by blast
qed

lemma extract_first_bad:
  assumes "k < length items"
    and "\<forall>j<k. \<exists>v. carries (items ! j) v"
    and "no_embedding (items ! k)"
  shows "extract_embeddings i items acc = Inl (missing_item (i + k))"
  using assms
proof (induction items arbitrary: i k acc)
  case Nil
  then show ?case by simp
next
  case (Cons item items)
  show ?case
  proof (cases k)
    case 0
    with Cons.prems(3) have "py_get item ''embedding'' = Inr JNull"
      by (simp add: no_embedding_get)
    with 0 show ?thesis by simp
  next
    case (Suc k')
    from Cons.prems(2) Suc obtain v where c: "carries item v" by fastforce
    then have g: "py_get item ''embedding'' = Inr v" and nn: "v \<noteq> JNull"
      by (simp_all add: carries_get) (simp add: carries_def)
    from Cons.prems Suc have k': "k' < length items" and bad: "no_embedding (items ! k')"
      by simp_all
    from Cons.prems(2) Suc have good: "\<forall>j<k'. \<exists>v. carries (items ! j) v" by fastforce
    from Cons.IH[OF k' good bad]
    have "extract_embeddings (Suc i) items (acc @ [v]) = Inl (missing_item (Suc i + k'))" .
    with g nn Suc show ?thesis by simp
  qed
qed

subsection \<open>Messages determine the numbers they report\<close>

lemma missing_item_inj: "missing_item a = missing_item b \<Longrightarrow> a = b"
  by (simp add: missing_item_def str_nat_inj)

lemma str_nat_digits: "c \<in> set (str_nat n) \<Longrightarrow> c \<in> set ''0123456789''"
proof (induction n rule: str_nat.induct)
  case (1 n)
  have d: "digit m \<in> set ''0123456789''" if "m < 10" for m
    unfolding digit_def using that by (intro nth_mem) simp
  show ?case
  proof (cases "n < 10")
    case True
    with "1.prems" have "c = digit n" by (simp add: str_nat.simps[of n])
    with d[OF True] show ?thesis by simp
  next
    case False
    with "1.prems" have "c \<in> set (str_nat (n div 10)) \<or> c = digit (n mod 10)"
      by (auto simp add: str_nat.simps[of n])
    then show ?thesis
    proof
      assume "c \<in> set (str_nat (n div 10))"
      with "1.IH" False show ?thesis by blast
    next
      assume "c = digit (n mod 10)"
      with d[of "n mod 10"] show ?thesis by simp
    qed
  qed
qed

lemma str_nat_no_comma: "CHR '','' \<notin> set (str_nat n)"
  using str_nat_digits[of "CHR '',''" n] by auto

lemma split_at_comma:
  assumes "xs @ CHR '','' # ys = xs' @ CHR '','' # ys'"
    and "CHR '','' \<notin> set xs" and "CHR '','' \<notin> set xs'"
  shows "xs = xs' \<and> ys = ys'"
  using assms
proof (induction xs arbitrary: xs')
  case Nil
  then show ?case by (cases xs') auto
next
  case (Cons x xs)
  then show ?case by (cases xs') auto
qed

lemma length_mismatch_inj:
  assumes "length_mismatch a b = length_mismatch a' b'"
  shows "a = a' \<and> b = b'"
proof -
  from assms have "str_nat a @ CHR '','' # ('' got '' @ str_nat b)
                 = str_nat a' @ CHR '','' # ('' got '' @ str_nat b')"
    by (simp add: length_mismatch_def)
  from split_at_comma[OF this str_nat_no_comma str_nat_no_comma]
  have "str_nat a = str_nat a'" and "str_nat b = str_nat b'" by simp_all
  then show ?thesis by (simp add: str_nat_inj)
qed

lemma carries_nonnull: "carries item v \<Longrightarrow> v \<noteq> JNull"
  by (simp add: carries_def)

lemma carries_iff_get: "carries item v \<longleftrightarrow> py_get item ''embedding'' = Inr v \<and> v \<noteq> JNull"
  by (cases item) (auto simp add: carries_def split: option.splits)

lemma no_embedding_iff_get: "no_embedding item \<longleftrightarrow> py_get item ''embedding'' = Inr JNull"
  by (cases item) (auto simp add: no_embedding_def split: option.splits)

lemma py_get_Inl: "py_get item k = Inl e \<Longrightarrow> e = AttributeError \<and> (\<forall>v. \<not> has_field item k v) \<and> \<not> lacks_field item k"
  by (cases item) simp_all

lemma missing_item_not_attr: "missing_item k \<noteq> AttributeError"
  by (simp add: missing_item_def)

lemma extract_Inl_missing_D:
  "extract_embeddings i items acc = Inl (missing_item m) \<Longrightarrow>
     \<exists>k<length items. m = i + k \<and> (\<forall>j<k. \<exists>v. carries (items ! j) v) \<and> no_embedding (items ! k)"
proof (induction items arbitrary: i acc)
  case Nil
  then show ?case by simp
next
  case (Cons item items)
  show ?case
  proof (cases "py_get item ''embedding''")
    case (Inl e)
    with Cons.prems have "missing_item m = e" by simp
    with py_get_Inl[OF Inl] missing_item_not_attr show ?thesis by metis
  next
    case (Inr v)
    show ?thesis
    proof (cases "v = JNull")
      case True
      with Inr Cons.prems have "missing_item m = missing_item i" by simp
      then have "m = i" by (rule missing_item_inj)
      moreover from Inr True have "no_embedding item" using py_get_Inr_cases by blast
      ultimately show ?thesis by (intro exI[of _ 0]) simp
    next
      case False
      with Inr Cons.prems have "extract_embeddings (Suc i) items (acc @ [v]) = Inl (missing_item m)"
        by simp
      from Cons.IH[OF this] obtain k where k: "k < length items" "m = Suc i + k"
        "\<forall>j<k. \<exists>v. carries (items ! j) v" "no_embedding (items ! k)" by blast
      from Inr False have c: "carries item v" using py_get_Inr_cases by blast
      have "\<forall>j<Suc k. \<exists>v. carries ((item # items) ! j) v"
      proof (intro allI impI)
        fix j assume "j < Suc k"
        then show "\<exists>v. carries ((item # items) ! j) v"
          using c k(3) by (cases j) auto
      qed
      with k show ?thesis by (intro exI[of _ "Suc k"]) simp
    qed
  qed
qed


lemma replies_at [simp]: "replies data r = Inr (ok_response data)"
  by (simp add: replies_def mock_transport_def)

lemma mock_at [simp]: "mock_transport out r = out"
  by (simp add: mock_transport_def)

lemma rstrip_trailing:
  assumes "u = [] \<or> last u \<noteq> c"
  shows "rstrip (u @ replicate n c) [c] = u"
proof -
  have "dropWhile (\<lambda>x. x \<in> set [c]) (replicate n c @ rev u) = dropWhile (\<lambda>x. x \<in> set [c]) (rev u)"
    by (rule dropWhile_append2) simp
  also from assms have "\<dots> = rev u"
    by (cases "rev u") auto
  finally show ?thesis by (simp add: rstrip_def)
qed


lemma status_reply_at [simp]: "status_reply status_code body r = Inr (http_response status_code body)"
  by (simp add: status_reply_def mock_transport_def)

section \<open>Properties\<close>

subsection \<open>Empty batch\<close>

text \<open>
  C3. Called with the empty list, \<^verbatim>\<open>get_embeddings_batch\<close> returns the empty list and
  sends nothing: the list of requests sent is the one it started with, whatever the
  transport would answer.
\<close>

theorem batch_empty_no_call:
  "get_embeddings_batch self net [] sent = (Inr [], sent)"
  by (simp add: get_embeddings_batch_def)

subsection \<open>Order-preserving batch result\<close>

text \<open>
  C1, as the specification words it, asks only that each of the N items carries an
  \<^verbatim>\<open>embedding\<close> field. An item whose field is present and null satisfies that, and the
  call raises instead of returning the null: line 85 tests the looked-up value against
  \<^verbatim>\<open>None\<close>, which is also what a JSON null parses to.
\<close>

theorem batch_null_embedding_counterexample:
  "has_field (JObj [(''embeddings'', JArr [JObj [(''embedding'', JNull)]])]) ''embeddings''
      (JArr [JObj [(''embedding'', JNull)]])
   \<and> length [JObj [(''embedding'', JNull)]] = length [''a'']
   \<and> has_field (JObj [(''embedding'', JNull)]) ''embedding'' JNull
   \<and> fst (get_embeddings_batch sample_client
          (replies (JObj [(''embeddings'', JArr [JObj [(''embedding'', JNull)]])])) [''a''] [])
       = Inl (missing_item 0)"
  by (simp add: fst_get_embeddings_batch_ok[where data="JObj [(''embeddings'', JArr [JObj [(''embedding'', JNull)]])]"])

text \<open>
  C1, amended. For a non-empty list of N texts, when the request is answered with a
  success status and a body whose \<^verbatim>\<open>embeddings\<close> field is a list of exactly N JSON
  objects, each with an \<^verbatim>\<open>embedding\<close> field that is not null, the call returns exactly
  N values, the i-th being the \<^verbatim>\<open>embedding\<close> value of the i-th item, and has sent
  one request.
\<close>

theorem batch_returns_embeddings_in_order:
  assumes "texts \<noteq> []"
    and "net (embeddings_request self texts 60) = Inr (ok_response data)"
    and "has_field data ''embeddings'' (JArr items)"
    and "length items = length texts"
    and "list_all2 carries items vs"
  shows "get_embeddings_batch self net texts sent
           = (Inr vs, sent @ [embeddings_request self texts 60])
         \<and> length vs = length texts"
proof -
  from assms(3) have g: "py_get data ''embeddings'' = Inr (JArr items)"
    by (rule has_field_get)
  from assms(1,4) have ne: "items \<noteq> []" by auto
  have "fst (get_embeddings_batch self net texts sent) = extract_embeddings 0 items []"
    by (simp add: fst_get_embeddings_batch_ok[where net=net and data=data, OF assms(1,2)] g ne assms(4))
  also have "\<dots> = Inr vs" using extract_all[OF assms(5), of 0 "[]"] by simp
  finally have f: "fst (get_embeddings_batch self net texts sent) = Inr vs" .
  have s: "snd (get_embeddings_batch self net texts sent) = sent @ [embeddings_request self texts 60]"
    by (simp add: snd_get_embeddings_batch assms(1))
  from assms(4,5) have "length vs = length texts" by (auto dest: list_all2_lengthD)
  with f s show ?thesis by (simp add: prod_eq_iff)
qed

theorem batch_returns_embeddings_in_order_witness:
  "get_embeddings_batch sample_client
     (replies (JObj [(''embeddings'',
        JArr [JObj [(''embedding'', JArr [JFloat 0.5, JFloat 1])],
              JObj [(''embedding'', JArr [JFloat 2, JFloat 3])]])])) [''a'', ''b''] []
   = (Inr [JArr [JFloat 0.5, JFloat 1], JArr [JFloat 2, JFloat 3]],
      [embeddings_request sample_client [''a'', ''b''] 60])"
proof -
  let ?items = "[JObj [(''embedding'', JArr [JFloat 0.5, JFloat 1])],
                 JObj [(''embedding'', JArr [JFloat 2, JFloat 3])]]"
  let ?data = "JObj [(''embeddings'', JArr ?items)]"
  have h1: "[''a'', ''b''] \<noteq> []" by simp
  have h2: "replies ?data (embeddings_request sample_client [''a'', ''b''] 60) = Inr (ok_response ?data)"
    by simp
  have h3: "has_field ?data ''embeddings'' (JArr ?items)" by simp
  have h4: "length ?items = length [''a'', ''b'']" by simp
  have h5: "list_all2 carries ?items [JArr [JFloat 0.5, JFloat 1], JArr [JFloat 2, JFloat 3]]"
    by (simp add: carries_def)
  from batch_returns_embeddings_in_order[where net="replies ?data" and data="?data" and sent="[]", OF h1 h2 h3 h4 h5]
  show ?thesis by simp
qed

subsection \<open>Single embedding\<close>

text \<open>
  C2, as the specification words it, asks only that the first item has an
  \<^verbatim>\<open>embedding\<close> field. When that field is null the call raises the
  missing-embedding error instead of returning the field's value (line 38).
\<close>

theorem get_embedding_null_counterexample:
  "has_field (JObj [(''embeddings'', JArr [JObj [(''embedding'', JNull)]])]) ''embeddings''
      (JArr [JObj [(''embedding'', JNull)]])
   \<and> has_field (JObj [(''embedding'', JNull)]) ''embedding'' JNull
   \<and> fst (get_embedding sample_client
          (replies (JObj [(''embeddings'', JArr [JObj [(''embedding'', JNull)]])])) ''a'' [])
       = Inl missing_embedding"
  by (simp add: fst_get_embedding_ok[where data="JObj [(''embeddings'', JArr [JObj [(''embedding'', JNull)]])]"])

text \<open>
  C2, amended. When the request is answered with a success status and a body whose
  \<^verbatim>\<open>embeddings\<close> field is a non-empty list, and the first item is a JSON object whose
  \<^verbatim>\<open>embedding\<close> field is not null, \<^verbatim>\<open>get_embedding\<close> returns exactly that field's value,
  and has sent one request.
\<close>

theorem get_embedding_returns_first:
  assumes "net (embeddings_request self [t] 30) = Inr (ok_response data)"
    and "has_field data ''embeddings'' (JArr (item # rest))"
    and "carries item v"
  shows "get_embedding self net t sent = (Inr v, sent @ [embeddings_request self [t] 30])"
proof -
  from assms(2) have g: "py_get data ''embeddings'' = Inr (JArr (item # rest))"
    by (rule has_field_get)
  from assms(3) have i: "py_get item ''embedding'' = Inr v" and nn: "v \<noteq> JNull"
    by (simp_all add: carries_get) (simp add: carries_def)
  have "fst (get_embedding self net t sent) = Inr v"
    by (simp add: fst_get_embedding_ok[where net=net and data=data, OF assms(1)] g i nn)
  then show ?thesis by (simp add: prod_eq_iff snd_get_embedding)
qed

theorem get_embedding_returns_first_witness:
  "get_embedding sample_client
     (replies (JObj [(''embeddings'', JArr [JObj [(''embedding'', JArr [JFloat 0.25, JInt 7])]])]))
     ''hello'' []
   = (Inr (JArr [JFloat 0.25, JInt 7]), [embeddings_request sample_client [''hello''] 30])"
proof -
  let ?item = "JObj [(''embedding'', JArr [JFloat 0.25, JInt 7])]"
  let ?data = "JObj [(''embeddings'', JArr [?item])]"
  have h1: "replies ?data (embeddings_request sample_client [''hello''] 30) = Inr (ok_response ?data)"
    by simp
  have h2: "has_field ?data ''embeddings'' (JArr (?item # []))" by simp
  have h3: "carries ?item (JArr [JFloat 0.25, JInt 7])" by (simp add: carries_def)
  from get_embedding_returns_first[where net="replies ?data" and data="?data" and sent="[]", OF h1 h2 h3]
  show ?thesis by simp
qed

subsection \<open>Missing embeddings\<close>

text \<open>
  C4. For any input to either operation: when the call sends a request and the
  transport answers it with a success status and a body whose \<^verbatim>\<open>embeddings\<close> field is
  absent, null or the empty list, the call fails with the missing-embeddings
  validation error. (The empty batch sends no request, so it has no response.)
\<close>

theorem missing_embeddings_rejected:
  assumes "lacks_field data ''embeddings'' \<or> has_field data ''embeddings'' JNull
           \<or> has_field data ''embeddings'' (JArr [])"
  shows "(get_embedding self net t sent = (res1, sent1)
            \<and> answered net sent sent1 (Inr (ok_response data))
          \<longrightarrow> res1 = Inl missing_embeddings)
       \<and> (get_embeddings_batch self net texts sent = (res2, sent2)
            \<and> answered net sent sent2 (Inr (ok_response data))
          \<longrightarrow> res2 = Inl missing_embeddings)"
proof -
  from assms obtain items where g: "py_get data ''embeddings'' = Inr items" and f: "\<not> truthy items"
    by (auto dest: has_field_get lacks_field_get)
  have single: "res1 = Inl missing_embeddings"
    if run: "get_embedding self net t sent = (res1, sent1)"
      and ans: "answered net sent sent1 (Inr (ok_response data))"
  proof -
    from run have s: "sent1 = sent @ [embeddings_request self [t] 30]"
      using snd_get_embedding[of self net t sent] by simp
    with ans have n: "net (embeddings_request self [t] 30) = Inr (ok_response data)" by simp
    from run have "res1 = fst (get_embedding self net t sent)" by simp
    also have "\<dots> = Inl missing_embeddings"
      by (simp add: fst_get_embedding_ok[where net=net and data=data, OF n] g f)
    finally show ?thesis .
  qed
  have batch: "res2 = Inl missing_embeddings"
    if run: "get_embeddings_batch self net texts sent = (res2, sent2)"
      and ans: "answered net sent sent2 (Inr (ok_response data))"
  proof -
    from run have s: "sent2 = (if texts = [] then sent else sent @ [embeddings_request self texts 60])"
      using snd_get_embeddings_batch[of self net texts sent] by simp
    with ans have ne: "texts \<noteq> []" by (auto split: if_splits)
    with s ans have n: "net (embeddings_request self texts 60) = Inr (ok_response data)" by simp
    from run have "res2 = fst (get_embeddings_batch self net texts sent)" by simp
    also have "\<dots> = Inl missing_embeddings"
      by (simp add: fst_get_embeddings_batch_ok[where net=net and data=data, OF ne n] g f)
    finally show ?thesis .
  qed
  from single batch show ?thesis by blast
qed

theorem missing_embeddings_rejected_witness:
  "get_embedding sample_client (replies (JObj [(''embeddings'', JArr [])])) ''hello'' []
     = (Inl missing_embeddings, [embeddings_request sample_client [''hello''] 30])
   \<and> get_embeddings_batch sample_client (replies (JObj [(''embeddings'', JArr [])])) [''a'', ''b''] []
     = (Inl missing_embeddings, [embeddings_request sample_client [''a'', ''b''] 60])"
proof -
  let ?data = "JObj [(''embeddings'', JArr [])]"
  let ?r1 = "embeddings_request sample_client [''hello''] 30"
  let ?r2 = "embeddings_request sample_client [''a'', ''b''] 60"
  have h: "lacks_field ?data ''embeddings'' \<or> has_field ?data ''embeddings'' JNull
           \<or> has_field ?data ''embeddings'' (JArr [])" by simp
  obtain res1 sent1 where run1: "get_embedding sample_client (replies ?data) ''hello'' [] = (res1, sent1)"
    by (cases "get_embedding sample_client (replies ?data) ''hello'' []") blast
  obtain res2 sent2 where run2: "get_embeddings_batch sample_client (replies ?data) [''a'', ''b''] [] = (res2, sent2)"
    by (cases "get_embeddings_batch sample_client (replies ?data) [''a'', ''b''] []") blast
  from run1 have s1: "sent1 = [?r1]" using snd_get_embedding[of sample_client "replies ?data" "''hello''" "[]"] by simp
  from run2 have s2: "sent2 = [?r2]"
    using snd_get_embeddings_batch[of sample_client "replies ?data" "[''a'', ''b'']" "[]"] by simp
  have a1: "answered (replies ?data) [] sent1 (Inr (ok_response ?data))"
    using answered_one[of "replies ?data" "[]" ?r1] by (simp add: s1)
  have a2: "answered (replies ?data) [] sent2 (Inr (ok_response ?data))"
    using answered_one[of "replies ?data" "[]" ?r2] by (simp add: s2)
  from missing_embeddings_rejected[OF h, where net="replies ?data" and self=sample_client
      and t="''hello''" and texts="[''a'', ''b'']" and sent="[]"
      and ?res1.0=res1 and ?sent1.0=sent1 and ?res2.0=res2 and ?sent2.0=sent2]
    run1 run2 a1 a2
  have "res1 = Inl missing_embeddings" and "res2 = Inl missing_embeddings" by blast+
  with run1 run2 s1 s2 show ?thesis by simp
qed

subsection \<open>Length mismatch\<close>



subsection \<open>Item without an embedding\<close>

text \<open>
  C6, as the specification words it, names the smallest index whose item lacks the
  \<^verbatim>\<open>embedding\<close> field. An earlier item whose field is present and null stops the loop
  first, and the error names that earlier index.
\<close>

theorem batch_first_missing_key_counterexample:
  "has_field (JObj [(''embeddings'', JArr [JObj [(''embedding'', JNull)], JObj []])]) ''embeddings''
      (JArr [JObj [(''embedding'', JNull)], JObj []])
   \<and> length [JObj [(''embedding'', JNull)], JObj []] = length [''a'', ''b'']
   \<and> \<not> lacks_field ([JObj [(''embedding'', JNull)], JObj []] ! 0) ''embedding''
   \<and> lacks_field ([JObj [(''embedding'', JNull)], JObj []] ! 1) ''embedding''
   \<and> fst (get_embeddings_batch sample_client
          (replies (JObj [(''embeddings'', JArr [JObj [(''embedding'', JNull)], JObj []])]))
          [''a'', ''b''] [])
       = Inl (ValueError (''Missing '' @ quoted ''embedding'' @ '' in response item 0''))
   \<and> missing_item 1 = ValueError (''Missing '' @ quoted ''embedding'' @ '' in response item 1'')"
  by (simp add: fst_get_embeddings_batch_ok[where data="JObj [(''embeddings'', JArr [JObj [(''embedding'', JNull)], JObj []])]"]
      missing_item_def str_nat.simps digit_def)


text \<open>
  C6, amended. For a non-empty list of texts answered with a success status and a body
  whose \<^verbatim>\<open>embeddings\<close> field is a list of as many items as there are texts: when \<open>k\<close>
  is an index whose item is a JSON object with the \<^verbatim>\<open>embedding\<close> field absent or null,
  and every item before it is a JSON object with an \<^verbatim>\<open>embedding\<close> field that is not
  null, the call fails with the validation error that names \<open>k\<close>; the result is that
  error and no list. By \<open>missing_item_inj\<close> the message determines \<open>k\<close>.
\<close>

theorem batch_missing_item_index:
  assumes "texts \<noteq> []"
    and "net (embeddings_request self texts 60) = Inr (ok_response data)"
    and "has_field data ''embeddings'' (JArr items)"
    and "length items = length texts"
    and "k < length items"
    and "\<forall>j<k. \<exists>v. carries (items ! j) v"
    and "no_embedding (items ! k)"
  shows "get_embeddings_batch self net texts sent
           = (Inl (missing_item k), sent @ [embeddings_request self texts 60])"
proof -
  from assms(3) have g: "py_get data ''embeddings'' = Inr (JArr items)"
    by (rule has_field_get)
  from assms(1,4) have ne: "items \<noteq> []" by auto
  have "fst (get_embeddings_batch self net texts sent) = extract_embeddings 0 items []"
    by (simp add: fst_get_embeddings_batch_ok[where net=net and data=data, OF assms(1,2)] g ne assms(4))
  also have "\<dots> = Inl (missing_item k)"
    using extract_first_bad[OF assms(5,6,7), of 0 "[]"] by simp
  finally have "fst (get_embeddings_batch self net texts sent) = Inl (missing_item k)" .
  then show ?thesis by (simp add: prod_eq_iff snd_get_embeddings_batch assms(1))
qed

theorem batch_missing_item_index_witness:
  "get_embeddings_batch sample_client
     (replies (JObj [(''embeddings'',
        JArr [JObj [(''embedding'', JArr [JFloat 1])], JObj [(''id'', JInt 4)], JObj []])]))
     [''a'', ''b'', ''c''] []
   = (Inl (ValueError (''Missing '' @ quoted ''embedding'' @ '' in response item 1'')),
      [embeddings_request sample_client [''a'', ''b'', ''c''] 60])"
proof -
  let ?items = "[JObj [(''embedding'', JArr [JFloat 1])], JObj [(''id'', JInt 4)], JObj []]"
  let ?data = "JObj [(''embeddings'', JArr ?items)]"
  have h1: "[''a'', ''b'', ''c''] \<noteq> []" by simp
  have h2: "replies ?data (embeddings_request sample_client [''a'', ''b'', ''c''] 60)
              = Inr (ok_response ?data)" by simp
  have h3: "has_field ?data ''embeddings'' (JArr ?items)" by simp
  have h4: "length ?items = length [''a'', ''b'', ''c'']" by simp
  have h5: "(1::nat) < length ?items" by simp
  have h6: "\<forall>j<(1::nat). \<exists>v. carries (?items ! j) v"
    by (simp add: carries_def)
  have h7: "no_embedding (?items ! 1)" by (simp add: no_embedding_def)
  from batch_missing_item_index[where net="replies ?data" and data="?data" and sent="[]",
      OF h1 h2 h3 h4 h5 h6 h7]
  show ?thesis by (simp add: missing_item_def str_nat.simps digit_def)
qed

subsection \<open>Transport errors\<close>




subsection \<open>Shape of the request\<close>

text \<open>
  C8. \<^verbatim>\<open>get_embedding\<close> sends exactly one request: a POST to the base URL followed by
  \<^verbatim>\<open>/embeddings\<close>, with the bearer header, the JSON body with the one text, the input
  type \<^verbatim>\<open>document\<close> and the configured model, and timeout 30. Every request
  \<^verbatim>\<open>get_embeddings_batch\<close> sends is the same with all the texts and timeout 60, and it
  sends exactly one unless the list of texts is empty, in which case it sends none.
\<close>

theorem request_shape:
  "new_requests sent (snd (get_embedding self net t sent)) =
     [\<lparr>req_method = ''POST'', req_url = base_url self @ ''/embeddings'',
       req_json = JObj [(''inputs'', JArr [JStr t]),
                        (''input_type'', JStr ''document''),
                        (''embedding_model'', JStr (model self))],
       req_headers = [(''Authorization'', ''Bearer '' @ api_key self)],
       req_timeout = 30\<rparr>]
   \<and> (\<forall>r \<in> set (new_requests sent (snd (get_embeddings_batch self net texts sent))).
        r = \<lparr>req_method = ''POST'', req_url = base_url self @ ''/embeddings'',
              req_json = JObj [(''inputs'', JArr (map JStr texts)),
                               (''input_type'', JStr ''document''),
                               (''embedding_model'', JStr (model self))],
              req_headers = [(''Authorization'', ''Bearer '' @ api_key self)],
              req_timeout = 60\<rparr>)
   \<and> length (new_requests sent (snd (get_embeddings_batch self net texts sent)))
        = (if texts = [] then 0 else 1)"
  by (simp add: snd_get_embedding snd_get_embeddings_batch embeddings_request_def
      payload_of_def headers_of_def)

theorem request_shape_witness:
  "snd (get_embedding sample_client (replies JNull) ''hello'' []) =
     [\<lparr>req_method = ''POST'', req_url = ''https://api.example.com/v1/embeddings'',
       req_json = JObj [(''inputs'', JArr [JStr ''hello'']),
                        (''input_type'', JStr ''document''),
                        (''embedding_model'', JStr ''embed-small'')],
       req_headers = [(''Authorization'', ''Bearer secret'')],
       req_timeout = 30\<rparr>]
   \<and> snd (get_embeddings_batch sample_client (replies JNull) [''a'', ''b''] []) =
     [\<lparr>req_method = ''POST'', req_url = ''https://api.example.com/v1/embeddings'',
       req_json = JObj [(''inputs'', JArr [JStr ''a'', JStr ''b'']),
                        (''input_type'', JStr ''document''),
                        (''embedding_model'', JStr ''embed-small'')],
       req_headers = [(''Authorization'', ''Bearer secret'')],
       req_timeout = 60\<rparr>]"
proof -
  have c: "base_url sample_client = ''https://api.example.com/v1''"
    "api_key sample_client = ''secret''" "model sample_client = ''embed-small''"
    by (simp_all add: sample_client_def Embedding_init_def rstrip_def)
  from request_shape[of "[]" sample_client "replies JNull" "''hello''" "[''a'', ''b'']"]
  show ?thesis
    by (auto simp add: c new_requests_def length_Suc_conv)
qed

subsection \<open>Base URL\<close>

text \<open>
  C9. Constructing the client from a base URL made of \<open>u\<close>, which does not end in a
  slash, followed by any number of slashes (none included) stores \<open>u\<close> as the base URL
  and the key and model unchanged; every request either operation then sends targets
  \<open>u\<close> followed by \<^verbatim>\<open>/embeddings\<close>. The operations take the client as a value and
  return none: they cannot change it.
\<close>

theorem base_url_normalised:
  assumes "u = [] \<or> last u \<noteq> CHR ''/''"
  shows "Embedding_init k (u @ replicate n (CHR ''/'')) m = \<lparr>api_key = k, base_url = u, model = m\<rparr>
       \<and> (\<forall>r \<in> set (new_requests sent
                     (snd (get_embedding (Embedding_init k (u @ replicate n (CHR ''/'')) m) net t sent))).
            req_url r = u @ ''/embeddings'')
       \<and> (\<forall>r \<in> set (new_requests sent
                     (snd (get_embeddings_batch (Embedding_init k (u @ replicate n (CHR ''/'')) m) net texts sent))).
            req_url r = u @ ''/embeddings'')"
proof -
  have b: "Embedding_init k (u @ replicate n (CHR ''/'')) m = \<lparr>api_key = k, base_url = u, model = m\<rparr>"
    using rstrip_trailing[OF assms, of n] by (simp add: Embedding_init_def)
  show ?thesis
    by (simp add: b snd_get_embedding snd_get_embeddings_batch embeddings_request_def)
qed

theorem base_url_normalised_witness:
  "Embedding_init ''secret'' ''https://api.example.com/v1//'' ''embed-small''
     = \<lparr>api_key = ''secret'', base_url = ''https://api.example.com/v1'', model = ''embed-small''\<rparr>
   \<and> map req_url (snd (get_embedding (Embedding_init ''secret'' ''https://api.example.com/v1//'' ''embed-small'')
                        (replies JNull) ''hello'' []))
       = [''https://api.example.com/v1/embeddings'']
   \<and> map req_url (snd (get_embeddings_batch (Embedding_init ''secret'' ''https://api.example.com/v1//'' ''embed-small'')
                        (replies JNull) [''a'', ''b''] []))
       = [''https://api.example.com/v1/embeddings'']"
proof -
  have h: "''https://api.example.com/v1'' = [] \<or> last ''https://api.example.com/v1'' \<noteq> CHR ''/''"
    by simp
  have r: "''https://api.example.com/v1'' @ replicate (Suc (Suc 0)) (CHR ''/'') = ''https://api.example.com/v1//''"
    by simp
  from base_url_normalised[OF h, of "''secret''" "Suc (Suc 0)" "''embed-small''" "[]" "replies JNull" "''hello''" "[''a'', ''b'']"]
  show ?thesis
    unfolding r by (simp add: snd_get_embedding snd_get_embeddings_batch embeddings_request_def)
qed

subsection \<open>No validation of the embedding value\<close>

text \<open>
  C10. With a success status and an \<^verbatim>\<open>embeddings\<close> list: \<^verbatim>\<open>get_embedding\<close> returns
  \<open>v\<close> exactly when the first item is an object whose \<^verbatim>\<open>embedding\<close> key is bound to
  \<open>v\<close> and \<open>v\<close> is not null, whatever kind of JSON value \<open>v\<close> is, and raises the
  missing-embedding error exactly when the key is absent or bound to null. With as
  many items as texts, \<^verbatim>\<open>get_embeddings_batch\<close> returns \<open>vs\<close> exactly when every item
  is an object whose \<^verbatim>\<open>embedding\<close> key is bound to the corresponding element of \<open>vs\<close>,
  not null, and raises the error naming \<open>k\<close> exactly when item \<open>k\<close> is the first
  whose key is absent or bound to null.
\<close>

theorem embedding_value_not_validated:
  assumes "net (embeddings_request self [t] 30) = Inr (ok_response data1)"
    and "has_field data1 ''embeddings'' (JArr (item # rest))"
    and "texts \<noteq> []"
    and "net (embeddings_request self texts 60) = Inr (ok_response data2)"
    and "has_field data2 ''embeddings'' (JArr items)"
    and "length items = length texts"
  shows "(fst (get_embedding self net t sent) = Inr v
            \<longleftrightarrow> has_field item ''embedding'' v \<and> v \<noteq> JNull)
       \<and> (fst (get_embedding self net t sent) = Inl missing_embedding
            \<longleftrightarrow> lacks_field item ''embedding'' \<or> has_field item ''embedding'' JNull)
       \<and> (fst (get_embeddings_batch self net texts sent) = Inr vs
            \<longleftrightarrow> list_all2 (\<lambda>item v. has_field item ''embedding'' v \<and> v \<noteq> JNull) items vs)
       \<and> (fst (get_embeddings_batch self net texts sent) = Inl (missing_item k)
            \<longleftrightarrow> k < length items
                \<and> (\<forall>j<k. \<exists>v. has_field (items ! j) ''embedding'' v \<and> v \<noteq> JNull)
                \<and> (lacks_field (items ! k) ''embedding'' \<or> has_field (items ! k) ''embedding'' JNull))"
proof -
  from assms(2) have g1: "py_get data1 ''embeddings'' = Inr (JArr (item # rest))"
    by (rule has_field_get)
  have f1: "fst (get_embedding self net t sent) =
      (case py_get item ''embedding'' of
         Inl e \<Rightarrow> Inl e
       | Inr w \<Rightarrow> if w = JNull then Inl missing_embedding else Inr w)"
    by (simp add: fst_get_embedding_ok[where net=net and data=data1, OF assms(1)] g1)
  have a: "fst (get_embedding self net t sent) = Inr v \<longleftrightarrow> carries item v"
    by (cases "py_get item ''embedding''") (auto simp add: f1 carries_iff_get)
  have b: "fst (get_embedding self net t sent) = Inl missing_embedding \<longleftrightarrow> no_embedding item"
    by (cases "py_get item ''embedding''")
      (auto simp add: f1 no_embedding_iff_get missing_embedding_def dest: py_get_Inl)
  from assms(5) have g2: "py_get data2 ''embeddings'' = Inr (JArr items)"
    by (rule has_field_get)
  from assms(3,6) have ne: "items \<noteq> []" by auto
  have f2: "fst (get_embeddings_batch self net texts sent) = extract_embeddings 0 items []"
    by (simp add: fst_get_embeddings_batch_ok[where net=net and data=data2, OF assms(3,4)] g2 ne assms(6))
  have c: "fst (get_embeddings_batch self net texts sent) = Inr vs \<longleftrightarrow> list_all2 carries items vs"
    using extract_all[of items vs 0 "[]"] extract_Inr_D[of 0 items "[]" vs]
    by (auto simp add: f2)
  have d: "fst (get_embeddings_batch self net texts sent) = Inl (missing_item k)
            \<longleftrightarrow> k < length items \<and> (\<forall>j<k. \<exists>v. carries (items ! j) v) \<and> no_embedding (items ! k)"
    using extract_first_bad[of k items 0 "[]"] extract_Inl_missing_D[of 0 items "[]" k]
    by (auto simp add: f2)
  have cdef: "carries = (\<lambda>item v. has_field item ''embedding'' v \<and> v \<noteq> JNull)"
    by (simp add: fun_eq_iff carries_def)
  from a b c d show ?thesis
    unfolding cdef no_embedding_def by blast
qed

theorem embedding_value_not_validated_witness:
  "fst (get_embedding sample_client
          (replies (JObj [(''embeddings'',
             JArr [JObj [(''embedding'', JStr ''not a vector'')],
                   JObj [(''embedding'', JArr [JInt 1, JStr ''x'', JNull])]])])) ''hello'' [])
     = Inr (JStr ''not a vector'')
   \<and> fst (get_embeddings_batch sample_client
          (replies (JObj [(''embeddings'',
             JArr [JObj [(''embedding'', JStr ''not a vector'')],
                   JObj [(''embedding'', JArr [JInt 1, JStr ''x'', JNull])]])])) [''a'', ''b''] [])
     = Inr [JStr ''not a vector'', JArr [JInt 1, JStr ''x'', JNull]]"
proof -
  let ?i0 = "JObj [(''embedding'', JStr ''not a vector'')]"
  let ?i1 = "JObj [(''embedding'', JArr [JInt 1, JStr ''x'', JNull])]"
  let ?data = "JObj [(''embeddings'', JArr [?i0, ?i1])]"
  have h1: "replies ?data (embeddings_request sample_client [''hello''] 30) = Inr (ok_response ?data)"
    by simp
  have h2: "has_field ?data ''embeddings'' (JArr (?i0 # [?i1]))" by simp
  have h3: "[''a'', ''b''] \<noteq> []" by simp
  have h4: "replies ?data (embeddings_request sample_client [''a'', ''b''] 60) = Inr (ok_response ?data)"
    by simp
  have h5: "has_field ?data ''embeddings'' (JArr [?i0, ?i1])" by simp
  have h6: "length [?i0, ?i1] = length [''a'', ''b'']" by simp
  from embedding_value_not_validated[where net="replies ?data" and ?data1.0="?data" and ?data2.0="?data"
      and sent="[]" and v="JStr ''not a vector''"
      and vs="[JStr ''not a vector'', JArr [JInt 1, JStr ''x'', JNull]]",
      OF h1 h2 h3 h4 h5 h6]
  show ?thesis by simp
qed

end
